theory Spec2Isabelle
  imports Main "HOL-Library.Word" "HOL-Library.Sublist"
begin

section \<open>Values, markers and files\<close>

text \<open>
  The development follows \<^verbatim>\<open>src/resu/resu.py\<close>: the class \<^verbatim>\<open>Checkpoint\<close> with its
  methods \<^verbatim>\<open>ckpt_io\<close>, \<^verbatim>\<open>_encode\<close>, \<^verbatim>\<open>check_progress\<close> and \<^verbatim>\<open>record\<close>.

  Where a name of the source is taken in Isabelle, the constant is renamed: \<^verbatim>\<open>record\<close> is
  \<open>record_run\<close> and \<^verbatim>\<open>insert\<close> is \<open>insert_data\<close>. The SIGINT handler runs asynchronously
  and is not modelled beyond the flag that it is installed.

  Python values are a datatype. An item of the input collection is any value; a marker is
  a \<^verbatim>\<open>bytes\<close> object, and a \<^verbatim>\<open>bytes\<close> object is a value too (\<open>PyBytes\<close>), which matters
  because \<^verbatim>\<open>check_progress\<close> hands the entries it loads to \<^verbatim>\<open>_encode\<close>.
\<close>

type_synonym byte = "8 word"
type_synonym bytes = "byte list"

datatype pyval = PyNone | PyBool bool | PyInt int | PyBytes bytes

text \<open>
  Exceptions. \<open>FileNotFoundError\<close> carries its message, so that the error raised at line 94
  is told apart from the one the operating system raises in \<^verbatim>\<open>open\<close> and \<^verbatim>\<open>gzip.open\<close>. Of what
  \<^verbatim>\<open>read_data\<close> raises, \<open>NoSuchInput\<close> is the \<^verbatim>\<open>FileNotFoundError\<close> of \<^verbatim>\<open>open\<close> on a missing
  input file; the others are kept under \<open>InputError\<close>.
\<close>

datatype load_exn = ImportError | NotImplementedError | DecodeError | NoSuchInput

datatype exn =
    FileNotFoundError string
  | EOFError
  | BadGzipFile
  | UnpicklingError
  | TypeError
  | InputError load_exn
  | Exception string

definition ckpt_missing :: string where
  "ckpt_missing = ''The path to the checkpoint file does not exist!''"

definition no_such_file :: "string \<Rightarrow> string" where
  "no_such_file p = ''[Errno 2] No such file or directory: '' @ [CHR 0x27] @ p @ [CHR 0x27]"

text \<open>
  A file of the file system is represented by what reading it through
  \<^verbatim>\<open>gzip.open\<close> and \<^verbatim>\<open>pickle.load\<close> gives: \<open>Blank\<close> is the zero-length file that
  \<^verbatim>\<open>Path.touch\<close> creates (\<^verbatim>\<open>pickle.load\<close> raises \<^verbatim>\<open>EOFError\<close> on it), \<open>Snapshot vs\<close> is the
  gzip-compressed pickle of the list \<open>vs\<close>, \<open>NotPickle\<close> is a gzip file whose content is no
  pickle, and \<open>NotGzip\<close> is any other content. The
  compression and the pickle format of the file are the interpreter's; that
  \<^verbatim>\<open>pickle.load\<close> under \<^verbatim>\<open>gzip\<close> returns the list that \<^verbatim>\<open>pickle.dump\<close> under \<^verbatim>\<open>gzip\<close> wrote is built
  into this representation. The section on the store at the level of bytes has the files
  as bytes and the two libraries as parameters, and \<open>decode\<close> there maps the bytes of a file
  to what it is here. Failing writes (a full disk, a missing directory) are not modelled.
\<close>

datatype content = Blank | Snapshot "pyval list" | NotPickle | NotGzip

datatype input = Items "pyval list" | Path string

datatype notice =
    Resuming string nat
  | NothingToUpdate
  | SavingProgress "string option"

text \<open>
  The log of what a run did, in the order it did it: \<open>Call x\<close> when the callback is
  invoked on \<open>x\<close>, \<open>Mark m\<close> when \<open>m\<close> is appended to \<^verbatim>\<open>self.progress\<close> by the loop of
  \<^verbatim>\<open>record\<close>, \<open>Write p l\<close> when \<^verbatim>\<open>ckpt_io(mode='write')\<close> dumps the list \<open>l\<close> to the path
  \<open>p\<close>. The log is not a field of the Python object; it is kept to state how often and in
  which order these things happen.
\<close>

datatype event = Call pyval | Mark bytes | Write string "bytes list"

text \<open>
  The three fields of the object (\<^verbatim>\<open>__init__\<close>, lines 24 to 29), and the part of the world
  the methods read and change: the checkpoint files, what \<^verbatim>\<open>read_data\<close> (lines 53 to 76)
  returns for an input path, the integer part of \<^verbatim>\<open>time.time()\<close>, whether the SIGINT
  handler is installed, and what was printed.
\<close>

record state =
  input_data :: "input option"
  ckpt_file :: "string option"
  progress :: "bytes list"
  files :: "string \<rightharpoonup> content"
  input_files :: "string \<Rightarrow> load_exn + pyval list"
  clock :: int
  sigint_handler :: bool
  stdout :: "notice list"
  trace :: "event list"

definition init ::
  "input option \<Rightarrow> string option \<Rightarrow> (string \<rightharpoonup> content) \<Rightarrow> (string \<Rightarrow> load_exn + pyval list)
    \<Rightarrow> int \<Rightarrow> state" where
  "init inp ck fs loader t =
     \<lparr>input_data = inp, ckpt_file = ck, progress = [], files = fs, input_files = loader,
      clock = t, sigint_handler = False, stdout = [], trace = []\<rparr>"

definition insert_data :: "input \<Rightarrow> state \<Rightarrow> state" where
  "insert_data inp st = st\<lparr>input_data := Some inp\<rparr>"

definition resume :: "string \<Rightarrow> state \<Rightarrow> state" where
  "resume p st = st\<lparr>ckpt_file := Some p\<rparr>"

section \<open>The encoder\<close>

text \<open>
  \<^verbatim>\<open>_encode\<close> (lines 78 to 80) is \<^verbatim>\<open>base64.b64encode(pickle.dumps(x))\<close>.
  \<^verbatim>\<open>base64.b64encode\<close> is RFC 4648 with the standard alphabet and padding. The pickler is
  the interpreter's and its output depends on the protocol version, so every definition
  takes \<^verbatim>\<open>pickle.dumps\<close> as the parameter \<open>dumps\<close>.
\<close>

definition b64_alphabet :: string where
  "b64_alphabet = ''ABCDEFGHIJKLMNOPQRSTUVWXYZabcdefghijklmnopqrstuvwxyz0123456789+/''"

definition b64_char :: "int \<Rightarrow> byte" where
  "b64_char i = of_char (b64_alphabet ! nat (i mod 64))"

definition b64_pad :: byte where
  "b64_pad = of_char (CHR ''='')"

fun b64encode :: "bytes \<Rightarrow> bytes" where
  "b64encode (a # b # c # rest) =
     (let n = uint a * 65536 + uint b * 256 + uint c
      in [b64_char (n div 262144), b64_char (n div 4096), b64_char (n div 64), b64_char n])
     @ b64encode rest"
| "b64encode [a, b] =
     (let n = uint a * 65536 + uint b * 256
      in [b64_char (n div 262144), b64_char (n div 4096), b64_char (n div 64), b64_pad])"
| "b64encode [a] =
     (let n = uint a * 65536
      in [b64_char (n div 262144), b64_char (n div 4096), b64_pad, b64_pad])"
| "b64encode [] = []"

definition encode :: "(pyval \<Rightarrow> bytes) \<Rightarrow> pyval \<Rightarrow> bytes" where
  "encode dumps x = b64encode (dumps x)"

subsection \<open>Protocol 4 of pickle\<close>

text \<open>
  For examples at concrete inputs: what \<^verbatim>\<open>pickle.dumps\<close> of CPython 3.8 to 3.13 (default
  protocol 4) returns for \<^verbatim>\<open>None\<close>, booleans, integers and \<^verbatim>\<open>bytes\<close> objects. The opcodes
  are PROTO \<^verbatim>\<open>80\<close>, FRAME \<^verbatim>\<open>95\<close>, STOP \<^verbatim>\<open>2E\<close>, NONE \<^verbatim>\<open>4E\<close>, NEWTRUE \<^verbatim>\<open>88\<close>, NEWFALSE \<^verbatim>\<open>89\<close>,
  BININT1 \<^verbatim>\<open>4B\<close>, BININT2 \<^verbatim>\<open>4D\<close>, BININT \<^verbatim>\<open>4A\<close>, LONG1 \<^verbatim>\<open>8A\<close>, LONG4 \<^verbatim>\<open>8B\<close>, SHORT_BINBYTES \<^verbatim>\<open>43\<close>,
  BINBYTES \<^verbatim>\<open>42\<close>, BINBYTES8 \<^verbatim>\<open>8E\<close> and MEMOIZE \<^verbatim>\<open>94\<close>. The pickle of
  one such value is one frame, STOP included, and the frame header is written when the
  frame holds at least 4 bytes; a \<^verbatim>\<open>bytes\<close> object of 64 KiB or more is written outside any
  frame.
\<close>

definition le_bytes :: "nat \<Rightarrow> int \<Rightarrow> bytes" where
  "le_bytes k i = map (\<lambda>j. word_of_int (i div 256 ^ j)) [0..<k]"

function bit_length :: "int \<Rightarrow> nat" where
  "bit_length i = (if i \<le> 0 then 0 else Suc (bit_length (i div 2)))"
  by pat_completeness auto
termination
  by (relation "measure nat") auto

declare bit_length.simps [simp del]

definition save_long :: "int \<Rightarrow> bytes" where
  "save_long i =
     (if - (2 ^ 31) \<le> i \<and> i < 2 ^ 31 then
        (let w = le_bytes 4 i
         in if w ! 3 \<noteq> 0 \<or> w ! 2 \<noteq> 0 then 0x4A # w
            else if w ! 1 \<noteq> 0 then 0x4D # take 2 w
            else [0x4B, w ! 0])
      else
        (let n0 = bit_length \<bar>i\<bar> div 8 + 1;
             w = le_bytes n0 i;
             n = (if i < 0 \<and> 1 < n0 \<and> w ! (n0 - 1) = 0xFF \<and> 0x80 \<le> w ! (n0 - 2)
                  then n0 - 1 else n0)
         in if n < 256 then 0x8A # of_nat n # take n w
            else 0x8B # le_bytes 4 (int n) @ take n w))"

definition save_bytes :: "bytes \<Rightarrow> bytes" where
  "save_bytes bs =
     (let n = int (length bs)
      in if n < 256 then 0x43 # word_of_int n # bs
         else if n < 2 ^ 32 then 0x42 # le_bytes 4 n @ bs
         else 0x8E # le_bytes 8 n @ bs)"

definition frame :: "bytes \<Rightarrow> bytes" where
  "frame body = (if 4 \<le> int (length body) then 0x95 # le_bytes 8 (int (length body)) @ body else body)"

definition finish :: "bytes \<Rightarrow> bytes" where
  "finish body = frame (body @ [0x2E])"

fun pickle_dumps :: "pyval \<Rightarrow> bytes" where
  "pickle_dumps PyNone = [0x80, 4] @ finish [0x4E]"
| "pickle_dumps (PyBool b) = [0x80, 4] @ finish [if b then 0x88 else 0x89]"
| "pickle_dumps (PyInt i) = [0x80, 4] @ finish (save_long i)"
| "pickle_dumps (PyBytes bs) =
     (if 65536 \<le> int (length bs) then [0x80, 4] @ save_bytes bs @ [0x94, 0x2E]
      else [0x80, 4] @ finish (save_bytes bs @ [0x94]))"

section \<open>The checkpoint store\<close>

text \<open>
  \<^verbatim>\<open>ckpt_io\<close> (lines 37 to 44), one definition for each of its two modes.
  \<^verbatim>\<open>gzip.open(None, ...)\<close> raises \<^verbatim>\<open>TypeError\<close>, and \<^verbatim>\<open>gzip.open('', ...)\<close> raises
  \<^verbatim>\<open>FileNotFoundError\<close>.
\<close>

definition ckpt_io_write :: "state \<Rightarrow> exn + state" where
  "ckpt_io_write st =
     (case ckpt_file st of
        None \<Rightarrow> Inl TypeError
      | Some p \<Rightarrow>
          if p = [] then Inl (FileNotFoundError (no_such_file p))
          else Inr (st\<lparr>files := (files st)(p \<mapsto> Snapshot (map PyBytes (progress st))),
                       trace := trace st @ [Write p (progress st)]\<rparr>))"

definition ckpt_io_read :: "state \<Rightarrow> exn + pyval list" where
  "ckpt_io_read st =
     (case ckpt_file st of
        None \<Rightarrow> Inl TypeError
      | Some p \<Rightarrow>
          (case files st p of
             None \<Rightarrow> Inl (FileNotFoundError (no_such_file p))
           | Some Blank \<Rightarrow> Inl EOFError
           | Some NotPickle \<Rightarrow> Inl UnpicklingError
           | Some NotGzip \<Rightarrow> Inl BadGzipFile
           | Some (Snapshot vs) \<Rightarrow> Inr vs))"

section \<open>The resume planner\<close>

text \<open>The decimal digits of \<^verbatim>\<open>int(time.time())\<close> in the f-string of line 84.\<close>

function digits :: "int \<Rightarrow> string" where
  "digits i =
     (if i < 10 then [char_of (48 + i)] else digits (i div 10) @ [char_of (48 + i mod 10)])"
  by pat_completeness auto
termination
  by (relation "measure nat") auto

declare digits.simps [simp del]

definition str_int :: "int \<Rightarrow> string" where
  "str_int i = (if i < 0 then CHR ''-'' # digits (- i) else digits i)"

text \<open>\<^verbatim>\<open>Path(p).touch()\<close>: an existing file keeps its content.\<close>

definition touch :: "(string \<rightharpoonup> content) \<Rightarrow> string \<Rightarrow> (string \<rightharpoonup> content)" where
  "touch fs p = (case fs p of None \<Rightarrow> fs(p \<mapsto> Blank) | Some f \<Rightarrow> fs)"

text \<open>
  Lines 83 to 95 of \<^verbatim>\<open>check_progress\<close>. \<^verbatim>\<open>not self.ckpt_file\<close> holds for \<^verbatim>\<open>None\<close> and for
  the empty string. Every loaded entry \<open>x\<close> goes through \<^verbatim>\<open>self._encode(x)\<close> (line 90)
  before it is appended to \<^verbatim>\<open>self.progress\<close>.
\<close>

definition load_progress :: "(pyval \<Rightarrow> bytes) \<Rightarrow> state \<Rightarrow> exn + state" where
  "load_progress dumps st =
     (if ckpt_file st = None \<or> ckpt_file st = Some [] then
        (let p = str_int (clock st) @ ''.ckpt''
         in Inr (st\<lparr>ckpt_file := Some p, files := touch (files st) p\<rparr>))
      else if files st (the (ckpt_file st)) \<noteq> None then
        (case ckpt_io_read st of
           Inl e \<Rightarrow> Inl e
         | Inr data \<Rightarrow>
             Inr (st\<lparr>progress := progress st @ map (encode dumps) data,
                     stdout := stdout st @ [Resuming (the (ckpt_file st)) (length data)]\<rparr>))
      else Inl (FileNotFoundError ckpt_missing))"

text \<open>
  Lines 97 to 100: the input collection. Iterating \<^verbatim>\<open>None\<close> (no input was given) raises
  \<^verbatim>\<open>TypeError\<close>.
\<close>

definition input_items :: "state \<Rightarrow> exn + pyval list" where
  "input_items st =
     (case input_data st of
        None \<Rightarrow> Inl TypeError
      | Some (Path q) \<Rightarrow>
          (case input_files st q of
             Inl e \<Rightarrow>
               Inl (if e = NoSuchInput then FileNotFoundError (no_such_file q) else InputError e)
           | Inr xs \<Rightarrow> Inr xs)
      | Some (Items xs) \<Rightarrow> Inr xs)"

definition check_progress :: "(pyval \<Rightarrow> bytes) \<Rightarrow> state \<Rightarrow> (exn + pyval list) \<times> state" where
  "check_progress dumps st =
     (case load_progress dumps st of
        Inl e \<Rightarrow> (Inl e, st)
      | Inr st1 \<Rightarrow>
          (case input_items st1 of
             Inl e \<Rightarrow> (Inl e, st1)
           | Inr data \<Rightarrow> (Inr (filter (\<lambda>x. encode dumps x \<notin> set (progress st1)) data), st1)))"

section \<open>The execution loop\<close>

text \<open>
  The callback is a function of the item and of a state \<open>'u\<close> of its own (whatever it
  reads and changes besides the item); it returns a value or raises. \<^verbatim>\<open>tqdm\<close> yields the
  items of the list it wraps, in order.
\<close>

type_synonym ('u, 'r) callback = "pyval \<Rightarrow> 'u \<Rightarrow> (exn + 'r) \<times> 'u"

definition tqdm :: "'a list \<Rightarrow> 'a list" where
  "tqdm xs = xs"

definition py_enumerate :: "'a list \<Rightarrow> (nat \<times> 'a) list" where
  "py_enumerate xs = enumerate 0 xs"

text \<open>The \<^verbatim>\<open>for\<close> loop of lines 125 to 134.\<close>

fun loop ::
  "(pyval \<Rightarrow> bytes) \<Rightarrow> ('u, 'r) callback \<Rightarrow> (nat \<times> pyval) list \<Rightarrow> int \<Rightarrow> 'r list \<Rightarrow> state \<Rightarrow> 'u
    \<Rightarrow> (exn + 'r list) \<times> state \<times> 'u" where
  "loop dumps func [] checkpoint_every results st u = (Inr results, st, u)"
| "loop dumps func ((n, item) # rest) checkpoint_every results st u =
     (case func item u of
        (Inl e, u') \<Rightarrow> (Inl e, st\<lparr>trace := trace st @ [Call item]\<rparr>, u')
      | (Inr r, u') \<Rightarrow>
          (let st1 = st\<lparr>progress := progress st @ [encode dumps item],
                        trace := trace st @ [Call item, Mark (encode dumps item)]\<rparr>
           in if int (n + 1) = checkpoint_every then
                (case ckpt_io_write (st1\<lparr>stdout := stdout st1 @ [SavingProgress (ckpt_file st1)]\<rparr>) of
                   Inl e \<Rightarrow> (Inl e, st1\<lparr>stdout := stdout st1 @ [SavingProgress (ckpt_file st1)]\<rparr>, u')
                 | Inr st2 \<Rightarrow>
                     loop dumps func rest (checkpoint_every + checkpoint_every) (results @ [r]) st2 u')
              else loop dumps func rest checkpoint_every (results @ [r]) st1 u'))"

text \<open>
  \<^verbatim>\<open>record\<close> (lines 105 to 137). It returns \<^verbatim>\<open>None\<close> when nothing is left to do, and the
  list of results otherwise.
\<close>

definition record_run ::
  "(pyval \<Rightarrow> bytes) \<Rightarrow> ('u, 'r) callback \<Rightarrow> int \<Rightarrow> bool \<Rightarrow> state \<Rightarrow> 'u
    \<Rightarrow> (exn + 'r list option) \<times> state \<times> 'u" where
  "record_run dumps func checkpoint_every show_progress st u =
     (case check_progress dumps st of
        (Inl e, st1) \<Rightarrow> (Inl e, st1, u)
      | (Inr data, st1) \<Rightarrow>
          if data = [] then (Inr None, st1\<lparr>stdout := stdout st1 @ [NothingToUpdate]\<rparr>, u)
          else
            (let st2 = st1\<lparr>sigint_handler := True\<rparr>;
                 iterable = (if show_progress then py_enumerate (tqdm data) else py_enumerate data)
             in case loop dumps func iterable checkpoint_every [] st2 u of
                  (Inl e, st3, u') \<Rightarrow> (Inl e, st3, u')
                | (Inr results, st3, u') \<Rightarrow>
                    (case ckpt_io_write st3 of
                       Inl e \<Rightarrow> (Inl e, st3, u')
                     | Inr st4 \<Rightarrow> (Inr (Some results), st4, u'))))"

section \<open>Notions the properties are stated with\<close>

text \<open>
  The callback of the example scenario, \<^verbatim>\<open>lambda item: item * 10\<close>: an integer is
  multiplied (a boolean is an integer), a \<^verbatim>\<open>bytes\<close> object is repeated, and \<^verbatim>\<open>None * 10\<close>
  raises \<^verbatim>\<open>TypeError\<close>.
\<close>

definition times10 :: "('u, pyval) callback" where
  "times10 item u =
     (case item of
        PyNone \<Rightarrow> (Inl TypeError, u)
      | PyBool b \<Rightarrow> (Inr (PyInt (if b then 10 else 0)), u)
      | PyInt i \<Rightarrow> (Inr (PyInt (i * 10)), u)
      | PyBytes bs \<Rightarrow> (Inr (PyBytes (concat (replicate 10 bs))), u))"

text \<open>
  \<open>feed func xs u\<close> is what the callback returns on the items \<open>xs\<close>, one after the other
  from its state \<open>u\<close>, when it raises on none of them.
\<close>

fun feed :: "('u, 'r) callback \<Rightarrow> pyval list \<Rightarrow> 'u \<Rightarrow> ('r list \<times> 'u) option" where
  "feed func [] u = Some ([], u)"
| "feed func (x # xs) u =
     (case func x u of
        (Inl e, u') \<Rightarrow> None
      | (Inr r, u') \<Rightarrow>
          (case feed func xs u' of None \<Rightarrow> None | Some (rs, u'') \<Rightarrow> Some (r # rs, u'')))"

text \<open>
  The counts \<open>F\<close>, \<open>2F\<close>, \<open>4F\<close>, ... of completed items: \<open>m\<close> is \<open>F\<close> times a power of two.
\<close>

definition flush_point :: "int \<Rightarrow> nat \<Rightarrow> bool" where
  "flush_point F m = (\<exists>k. int m = F * 2 ^ k)"

text \<open>
  Projections of the log: the checkpoint writes with the list each one dumped, the
  callback invocations and appended markers without the writes, and the items the
  callback was invoked on.
\<close>

fun writes :: "event list \<Rightarrow> (string \<times> bytes list) list" where
  "writes [] = []"
| "writes (Write p l # es) = (p, l) # writes es"
| "writes (Call x # es) = writes es"
| "writes (Mark m # es) = writes es"

fun steps :: "event list \<Rightarrow> event list" where
  "steps [] = []"
| "steps (Write p l # es) = steps es"
| "steps (Call x # es) = Call x # steps es"
| "steps (Mark m # es) = Mark m # steps es"

fun calls :: "event list \<Rightarrow> pyval list" where
  "calls [] = []"
| "calls (Call x # es) = x # calls es"
| "calls (Write p l # es) = calls es"
| "calls (Mark m # es) = calls es"

text \<open>The lists that the checkpoint writes of a log dumped, in order.\<close>

fun snapshots :: "event list \<Rightarrow> bytes list list" where
  "snapshots [] = []"
| "snapshots (Write p l # es) = l # snapshots es"
| "snapshots (Call x # es) = snapshots es"
| "snapshots (Mark m # es) = snapshots es"

text \<open>
  The invariant of a run: each list written so far is a prefix of every list written after
  it, and of the progress list as it is now.
\<close>

definition monotone :: "state \<Rightarrow> bool" where
  "monotone st =
     (sorted_wrt prefix (snapshots (trace st))
      \<and> list_all (\<lambda>l. prefix l (progress st)) (snapshots (trace st)))"

text \<open>
  The counts at which the specification's sentence on the flush cadence puts the first
  three periodic flushes: "after exactly \<open>F\<close> completed items, the second after \<open>2F\<close> more,
  the third after \<open>4F\<close> more".
\<close>

definition spec_flush_counts :: "nat \<Rightarrow> nat list" where
  "spec_flush_counts F = [F, F + 2 * F, F + 2 * F + 4 * F]"

section \<open>Equality of items\<close>




section \<open>The checkpoint store at the level of bytes\<close>

text \<open>
  \<^verbatim>\<open>ckpt_io\<close> once more (lines 37 to 44), with a file as the bytes it holds and the two
  libraries it calls as parameters: \<open>gzip_write b\<close> is the content of the file after \<open>b\<close> was
  written through \<^verbatim>\<open>gzip.open(p, 'wb')\<close>, \<open>gzip_read\<close> is what reading a file through
  \<^verbatim>\<open>gzip.open(p, 'rb')\<close> gives, \<open>pickle_dump\<close> is what \<^verbatim>\<open>pickle.dump\<close> writes for a list and
  \<open>pickle_load\<close> what \<^verbatim>\<open>pickle.load\<close> returns. The store has the two fields of the object that
  \<^verbatim>\<open>ckpt_io\<close> reads, \<^verbatim>\<open>self.ckpt_file\<close> and \<^verbatim>\<open>self.progress\<close>, and the files.
\<close>

record libs =
  gzip_write :: "bytes \<Rightarrow> bytes"
  gzip_read :: "bytes \<Rightarrow> exn + bytes"
  pickle_dump :: "pyval list \<Rightarrow> bytes"
  pickle_load :: "bytes \<Rightarrow> exn + pyval list"

record store =
  store_path :: "string option"
  store_progress :: "bytes list"
  store_files :: "string \<rightharpoonup> bytes"

definition ckpt_io_write_bytes :: "libs \<Rightarrow> store \<Rightarrow> exn + store" where
  "ckpt_io_write_bytes lib s =
     (case store_path s of
        None \<Rightarrow> Inl TypeError
      | Some p \<Rightarrow>
          if p = [] then Inl (FileNotFoundError (no_such_file p))
          else Inr (s\<lparr>store_files := (store_files s)
                 (p \<mapsto> gzip_write lib (pickle_dump lib (map PyBytes (store_progress s))))\<rparr>))"

definition ckpt_io_read_bytes :: "libs \<Rightarrow> store \<Rightarrow> exn + pyval list" where
  "ckpt_io_read_bytes lib s =
     (case store_path s of
        None \<Rightarrow> Inl TypeError
      | Some p \<Rightarrow>
          (case store_files s p of
             None \<Rightarrow> Inl (FileNotFoundError (no_such_file p))
           | Some b \<Rightarrow>
               (case gzip_read lib b of
                  Inl e \<Rightarrow> Inl e
                | Inr d \<Rightarrow> pickle_load lib d)))"

text \<open>
  What a file of the first sections stands for: \<open>Snapshot vs\<close> for any bytes that are read
  back as \<open>vs\<close>, \<open>Blank\<close> for bytes on which \<^verbatim>\<open>pickle.load\<close> raises \<^verbatim>\<open>EOFError\<close>.
\<close>

definition decode :: "libs \<Rightarrow> bytes \<Rightarrow> content" where
  "decode lib b =
     (case gzip_read lib b of
        Inl e \<Rightarrow> NotGzip
      | Inr d \<Rightarrow>
          (case pickle_load lib d of
             Inl e \<Rightarrow> if e = EOFError then Blank else NotPickle
           | Inr vs \<Rightarrow> Snapshot vs))"

text \<open>
  The libraries invert each other on the list \<open>vs\<close>: reading through \<^verbatim>\<open>gzip\<close> what was written
  through it gives the pickle back, and \<^verbatim>\<open>pickle.load\<close> on the pickle of \<open>vs\<close> returns \<open>vs\<close>.
\<close>

definition library_round_trip :: "libs \<Rightarrow> pyval list \<Rightarrow> bool" where
  "library_round_trip lib vs =
     (gzip_read lib (gzip_write lib (pickle_dump lib vs)) = Inr (pickle_dump lib vs)
      \<and> pickle_load lib (pickle_dump lib vs) = Inr vs)"




section \<open>Lemmas on the loop\<close>

lemma writes_append [simp]: "writes (es @ fs) = writes es @ writes fs"
  by (induction es rule: writes.induct) simp_all

lemma steps_append [simp]: "steps (es @ fs) = steps es @ steps fs"
  by (induction es rule: steps.induct) simp_all

lemma calls_append [simp]: "calls (es @ fs) = calls es @ calls fs"
  by (induction es rule: calls.induct) simp_all

lemma flush_point_self: "flush_point (int m) m"
  unfolding flush_point_def by (rule exI [of _ 0]) simp

lemma flush_point_none:
  assumes "int m < T \<or> T \<le> 0" and "0 < m"
  shows "\<not> flush_point T m"
proof
  assume "flush_point T m"
  then obtain k where k: "int m = T * 2 ^ k" by (auto simp: flush_point_def)
  show False
  proof (cases "T \<le> 0")
    case True
    then have "T * 2 ^ k \<le> 0" by (simp add: mult_le_0_iff)
    with k assms(2) show False by simp
  next
    case False
    have "(1::int) \<le> 2 ^ k" by (rule one_le_power) simp
    moreover from False have "0 < T" by simp
    ultimately have "T * 1 \<le> T * 2 ^ k" by (simp only: mult_le_cancel_left_pos)
    then have "T \<le> int m" unfolding k by simp
    with assms(1) False show False by arith
  qed
qed

lemma flush_point_double:
  assumes "0 < T" and "T < int m"
  shows "flush_point (T + T) m = flush_point T m"
proof
  assume "flush_point (T + T) m"
  then obtain k where "int m = (T + T) * 2 ^ k" by (auto simp: flush_point_def)
  then have "int m = T * 2 ^ Suc k" by simp
  then show "flush_point T m" unfolding flush_point_def by blast
next
  assume "flush_point T m"
  then obtain k where k: "int m = T * 2 ^ k" by (auto simp: flush_point_def)
  with assms(2) have "k \<noteq> 0" by (cases k) auto
  then obtain j where "k = Suc j" by (cases k) auto
  with k have "int m = (T + T) * 2 ^ j" by simp
  then show "flush_point (T + T) m" unfolding flush_point_def by blast
qed

lemma take_shift:
  assumes "Suc n \<le> m"
  shows "take (m - n) (x # xs) = x # take (m - Suc n) xs"
proof -
  from assms have "m - n = Suc (m - Suc n)" by arith
  then show ?thesis by simp
qed

lemma snapshot_shift:
  assumes "m \<in> set (filter P [Suc (Suc n)..<b])"
  shows "(p, (l @ [e x]) @ map e (take (m - Suc n) xs)) = (p, l @ map e (take (m - n) (x # xs)))"
proof -
  from assms have "m \<in> {Suc (Suc n)..<b}" by (simp only: set_filter set_upt mem_Collect_eq)
  then have "Suc n \<le> m" by simp
  then show ?thesis by (simp add: take_shift)
qed

lemma loop_completes:
  assumes "feed func xs u = Some (rs', u')" and "ckpt_file st = Some p" and "p \<noteq> []"
    and "int n < T \<or> T \<le> 0"
  shows "\<exists>st'. loop dumps func (enumerate n xs) T rs st u = (Inr (rs @ rs'), st', u')
           \<and> progress st' = progress st @ map (encode dumps) xs
           \<and> ckpt_file st' = Some p
           \<and> steps (trace st') = steps (trace st) @ concat (map (\<lambda>x. [Call x, Mark (encode dumps x)]) xs)
           \<and> writes (trace st') = writes (trace st) @
                map (\<lambda>m. (p, progress st @ map (encode dumps) (take (m - n) xs)))
                  (filter (flush_point T) [Suc n..<Suc (n + length xs)])"
  using assms
proof (induction xs arbitrary: n T rs st u rs')
  case Nil
  then show ?case by simp
next
  case (Cons x xs)
  from Cons.prems(1) obtain r u1 rs1 where
    fx: "func x u = (Inr r, u1)" and rest: "feed func xs u1 = Some (rs1, u')" and rs': "rs' = r # rs1"
    by (auto split: prod.splits sum.splits option.splits)
  define L where "L = [Suc (Suc n)..<Suc (Suc n + length xs)]"
  define P1 where "P1 = progress st @ [encode dumps x]"
  define st1 where "st1 = st\<lparr>progress := P1, trace := trace st @ [Call x, Mark (encode dumps x)]\<rparr>"
  define st2 where "st2 = st1\<lparr>stdout := stdout st1 @ [SavingProgress (ckpt_file st1)],
      files := (files st1)(p \<mapsto> Snapshot (map PyBytes (progress st1))),
      trace := trace st1 @ [Write p (progress st1)]\<rparr>"
  have upt: "[Suc n..<Suc (n + length (x # xs))] = Suc n # L"
    unfolding L_def by (subst upt_rec) simp
  have maps: "map (\<lambda>m. (p, P1 @ map (encode dumps) (take (m - Suc n) xs))) (filter Q L)
      = map (\<lambda>m. (p, progress st @ map (encode dumps) (take (m - n) (x # xs)))) (filter Q L)" for Q
    unfolding L_def P1_def by (rule map_cong [OF refl], rule snapshot_shift)
  have first: "(p, P1) = (p, progress st @ map (encode dumps) (take (Suc n - n) (x # xs)))"
    by (simp add: P1_def)
  have ck1: "ckpt_file st1 = Some p" and pr1: "progress st1 = P1"
    and steps1: "steps (trace st1) = steps (trace st) @ [Call x, Mark (encode dumps x)]"
    and writes1: "writes (trace st1) = writes (trace st)"
    using Cons.prems(2) by (simp_all add: st1_def)
  have ck2: "ckpt_file st2 = Some p" and pr2: "progress st2 = P1"
    and steps2: "steps (trace st2) = steps (trace st) @ [Call x, Mark (encode dumps x)]"
    and writes2: "writes (trace st2) = writes (trace st) @ [(p, P1)]"
    using ck1 pr1 steps1 writes1 by (simp_all add: st2_def)
  show ?case
  proof (cases "int (n + 1) = T")
    case True
    have w: "ckpt_io_write (st1\<lparr>stdout := stdout st1 @ [SavingProgress (ckpt_file st1)]\<rparr>) = Inr st2"
      using ck1 Cons.prems(3) by (simp add: ckpt_io_write_def st2_def)
    have step: "loop dumps func (enumerate n (x # xs)) T rs st u
        = loop dumps func (enumerate (Suc n) xs) (T + T) (rs @ [r]) st2 u1"
      using fx True w by (simp add: Let_def st1_def [symmetric] P1_def [symmetric])
    have T2: "int (Suc n) < T + T \<or> T + T \<le> 0" using True by simp
    from Cons.IH [OF rest ck2 Cons.prems(3) T2, of "rs @ [r]"]
    obtain st' where
      run: "loop dumps func (enumerate (Suc n) xs) (T + T) (rs @ [r]) st2 u1
          = (Inr ((rs @ [r]) @ rs1), st', u')"
      and pr: "progress st' = progress st2 @ map (encode dumps) xs"
      and ck: "ckpt_file st' = Some p"
      and sp: "steps (trace st') = steps (trace st2) @ concat (map (\<lambda>x. [Call x, Mark (encode dumps x)]) xs)"
      and wr: "writes (trace st') = writes (trace st2) @
                map (\<lambda>m. (p, progress st2 @ map (encode dumps) (take (m - Suc n) xs)))
                  (filter (flush_point (T + T)) L)"
      unfolding L_def by blast
    have filt: "filter (flush_point (T + T)) L = filter (flush_point T) L"
    proof (rule filter_cong [OF refl])
      fix m assume "m \<in> set L"
      then have "m \<in> {Suc (Suc n)..<Suc (Suc n + length xs)}"
        unfolding L_def by (simp only: set_upt)
      with True have "0 < T" and "T < int m" by auto
      then show "flush_point (T + T) m = flush_point T m" by (rule flush_point_double)
    qed
    have here: "flush_point T (Suc n)" using True flush_point_self [of "Suc n"] by simp
    show ?thesis
    proof (intro exI conjI)
      show "loop dumps func (enumerate n (x # xs)) T rs st u = (Inr (rs @ rs'), st', u')"
        unfolding step run rs' by simp
      show "progress st' = progress st @ map (encode dumps) (x # xs)"
        unfolding pr pr2 P1_def by simp
      show "ckpt_file st' = Some p" by (rule ck)
      show "steps (trace st') = steps (trace st) @ concat (map (\<lambda>x. [Call x, Mark (encode dumps x)]) (x # xs))"
        unfolding sp steps2 by simp
      show "writes (trace st') = writes (trace st) @
                map (\<lambda>m. (p, progress st @ map (encode dumps) (take (m - n) (x # xs))))
                  (filter (flush_point T) [Suc n..<Suc (n + length (x # xs))])"
        unfolding wr writes2 pr2 filt maps upt using here first by simp
    qed
  next
    case False
    have step: "loop dumps func (enumerate n (x # xs)) T rs st u
        = loop dumps func (enumerate (Suc n) xs) T (rs @ [r]) st1 u1"
      using fx False by (simp add: Let_def st1_def [symmetric] P1_def [symmetric])
    have T1: "int (Suc n) < T \<or> T \<le> 0" using False Cons.prems(4) by auto
    from Cons.IH [OF rest ck1 Cons.prems(3) T1, of "rs @ [r]"]
    obtain st' where
      run: "loop dumps func (enumerate (Suc n) xs) T (rs @ [r]) st1 u1
          = (Inr ((rs @ [r]) @ rs1), st', u')"
      and pr: "progress st' = progress st1 @ map (encode dumps) xs"
      and ck: "ckpt_file st' = Some p"
      and sp: "steps (trace st') = steps (trace st1) @ concat (map (\<lambda>x. [Call x, Mark (encode dumps x)]) xs)"
      and wr: "writes (trace st') = writes (trace st1) @
                map (\<lambda>m. (p, progress st1 @ map (encode dumps) (take (m - Suc n) xs)))
                  (filter (flush_point T) L)"
      unfolding L_def by blast
    have here: "\<not> flush_point T (Suc n)"
      using False Cons.prems(4) by (intro flush_point_none) auto
    show ?thesis
    proof (intro exI conjI)
      show "loop dumps func (enumerate n (x # xs)) T rs st u = (Inr (rs @ rs'), st', u')"
        unfolding step run rs' by simp
      show "progress st' = progress st @ map (encode dumps) (x # xs)"
        unfolding pr pr1 P1_def by simp
      show "ckpt_file st' = Some p" by (rule ck)
      show "steps (trace st') = steps (trace st) @ concat (map (\<lambda>x. [Call x, Mark (encode dumps x)]) (x # xs))"
        unfolding sp steps1 by simp
      show "writes (trace st') = writes (trace st) @
                map (\<lambda>m. (p, progress st @ map (encode dumps) (take (m - n) (x # xs))))
                  (filter (flush_point T) [Suc n..<Suc (n + length (x # xs))])"
        unfolding wr writes1 pr1 maps upt using here by simp
    qed
  qed
qed

section \<open>Lemmas on the resume planner\<close>

lemma no_such_file_neq [simp]: "no_such_file p \<noteq> ckpt_missing"
  by (simp add: no_such_file_def ckpt_missing_def)

lemma load_progress_ok:
  assumes "load_progress dumps st = Inr st1"
  shows "(\<exists>p. ckpt_file st1 = Some p \<and> p \<noteq> []) \<and> trace st1 = trace st
          \<and> prefix (progress st) (progress st1) \<and> input_data st1 = input_data st"
  using assms
  by (auto simp: load_progress_def Let_def split: if_splits sum.splits)

lemma check_progress_ok:
  assumes "check_progress dumps st = (Inr data, st1)"
  shows "(\<exists>p. ckpt_file st1 = Some p \<and> p \<noteq> []) \<and> trace st1 = trace st
          \<and> prefix (progress st) (progress st1)"
  using assms load_progress_ok [of dumps st]
  by (auto simp: check_progress_def split: sum.splits)

lemma check_progress_resume:
  assumes "ckpt_file st = Some p" and "p \<noteq> []" and "files st p = Some (Snapshot vs)"
    and "input_data st = Some (Items xs)"
  shows "check_progress dumps st =
    (Inr (filter (\<lambda>x. encode dumps x \<notin> set (progress st) \<union> encode dumps ` set vs) xs),
     st\<lparr>progress := progress st @ map (encode dumps) vs,
        stdout := stdout st @ [Resuming p (length vs)]\<rparr>)"
  using assms
  by (simp add: check_progress_def load_progress_def ckpt_io_read_def input_items_def)

lemma check_progress_fresh:
  assumes "ckpt_file st = None \<or> ckpt_file st = Some []" and "input_data st = Some (Items xs)"
  shows "check_progress dumps st =
    (Inr (filter (\<lambda>x. encode dumps x \<notin> set (progress st)) xs),
     st\<lparr>ckpt_file := Some (str_int (clock st) @ ''.ckpt''),
        files := touch (files st) (str_int (clock st) @ ''.ckpt'')\<rparr>)"
  using assms
  by (auto simp: check_progress_def load_progress_def input_items_def Let_def)

section \<open>Lemmas on runs\<close>

lemma loop_raises:
  assumes "feed func pre u = Some (rs', u1)" and "func x u1 = (Inl e, u2)"
    and "ckpt_file st = Some p" and "p \<noteq> []"
  shows "\<exists>st'. loop dumps func (enumerate n (pre @ x # post)) T rs st u = (Inl e, st', u2)
           \<and> progress st' = progress st @ map (encode dumps) pre
           \<and> steps (trace st') = steps (trace st)
                @ concat (map (\<lambda>y. [Call y, Mark (encode dumps y)]) pre) @ [Call x]"
  using assms
proof (induction pre arbitrary: n T rs st u rs')
  case Nil
  then show ?case by simp
next
  case (Cons y pre)
  from Cons.prems(1) obtain r u0 rs0 where
    fy: "func y u = (Inr r, u0)" and rest: "feed func pre u0 = Some (rs0, u1)"
    by (auto split: prod.splits sum.splits option.splits)
  define st1 where "st1 = st\<lparr>progress := progress st @ [encode dumps y],
      trace := trace st @ [Call y, Mark (encode dumps y)]\<rparr>"
  define st2 where "st2 = st1\<lparr>stdout := stdout st1 @ [SavingProgress (ckpt_file st1)],
      files := (files st1)(p \<mapsto> Snapshot (map PyBytes (progress st1))),
      trace := trace st1 @ [Write p (progress st1)]\<rparr>"
  have ck1: "ckpt_file st1 = Some p" using Cons.prems(3) by (simp add: st1_def)
  have ck2: "ckpt_file st2 = Some p" using ck1 by (simp add: st2_def)
  show ?case
  proof (cases "int (n + 1) = T")
    case True
    have w: "ckpt_io_write (st1\<lparr>stdout := stdout st1 @ [SavingProgress (ckpt_file st1)]\<rparr>) = Inr st2"
      using ck1 Cons.prems(4) by (simp add: ckpt_io_write_def st2_def)
    have step: "loop dumps func (enumerate n ((y # pre) @ x # post)) T rs st u
        = loop dumps func (enumerate (Suc n) (pre @ x # post)) (T + T) (rs @ [r]) st2 u0"
      using fy True w by (simp add: Let_def st1_def [symmetric])
    from Cons.IH [OF rest Cons.prems(2) ck2 Cons.prems(4), of "Suc n" "T + T" "rs @ [r]"]
    show ?thesis unfolding step by (auto simp: st2_def st1_def)
  next
    case False
    have step: "loop dumps func (enumerate n ((y # pre) @ x # post)) T rs st u
        = loop dumps func (enumerate (Suc n) (pre @ x # post)) T (rs @ [r]) st1 u0"
      using fy False by (simp add: Let_def st1_def [symmetric])
    from Cons.IH [OF rest Cons.prems(2) ck1 Cons.prems(4), of "Suc n" T "rs @ [r]"]
    show ?thesis unfolding step by (auto simp: st1_def)
  qed
qed

lemma snapshots_append [simp]: "snapshots (es @ fs) = snapshots es @ snapshots fs"
  by (induction es rule: snapshots.induct) simp_all

lemma ckpt_io_write_ok:
  assumes "ckpt_io_write st = Inr st2"
  shows "\<exists>p. ckpt_file st = Some p \<and> p \<noteq> [] \<and> progress st2 = progress st
    \<and> writes (trace st2) = writes (trace st) @ [(p, progress st)]
    \<and> snapshots (trace st2) = snapshots (trace st) @ [progress st]
    \<and> steps (trace st2) = steps (trace st)
    \<and> files st2 p = Some (Snapshot (map PyBytes (progress st)))
    \<and> ckpt_file st2 = Some p"
  using assms by (auto simp: ckpt_io_write_def split: option.splits if_splits)

lemma monotone_append:
  assumes "monotone st" and "progress st1 = progress st @ ms" and "snapshots (trace st1) = snapshots (trace st)"
  shows "monotone st1"
  using assms by (auto simp: monotone_def list_all_iff intro: prefix_order.trans)

lemma monotone_write:
  assumes "monotone st" and "ckpt_io_write st = Inr st2"
  shows "monotone st2"
  using assms ckpt_io_write_ok [OF assms(2)]
  by (auto simp: monotone_def list_all_iff sorted_wrt_append)

lemma loop_monotone:
  assumes "loop dumps func its T rs st u = (r, st', u')" and "monotone st"
  shows "monotone st' \<and> prefix (progress st) (progress st')"
  using assms
proof (induction its arbitrary: T rs st u)
  case Nil
  then show ?case by simp
next
  case (Cons it its)
  obtain n x where it: "it = (n, x)" by (cases it)
  show ?case
  proof (cases "func x u")
    case (Pair res u0)
    show ?thesis
    proof (cases res)
      case (Inl e)
      with Cons.prems Pair it have "st' = st\<lparr>trace := trace st @ [Call x]\<rparr>" by auto
      with Cons.prems(2) show ?thesis
        by (auto intro: monotone_append [where ms = "[]"])
    next
      case (Inr v)
      define st1 where "st1 = st\<lparr>progress := progress st @ [encode dumps x],
          trace := trace st @ [Call x, Mark (encode dumps x)]\<rparr>"
      define st1' where "st1' = st1\<lparr>stdout := stdout st1 @ [SavingProgress (ckpt_file st1)]\<rparr>"
      have m1: "monotone st1"
        using Cons.prems(2) by (rule monotone_append [where ms = "[encode dumps x]"]) (simp_all add: st1_def)
      have m1': "monotone st1'"
        using m1 by (rule monotone_append [where ms = "[]"]) (simp_all add: st1'_def)
      have p1: "prefix (progress st) (progress st1)" by (simp add: st1_def)
      have p1': "progress st1' = progress st1" by (simp add: st1'_def)
      show ?thesis
      proof (cases "int (n + 1) = T")
        case True
        show ?thesis
        proof (cases "ckpt_io_write st1'")
          case (Inl e)
          with Cons.prems(1) Pair Inr it True have "st' = st1'"
            by (simp add: Let_def st1_def [symmetric] st1'_def [symmetric])
          with m1' p1 p1' show ?thesis by simp
        next
          case wr: (Inr st2)
          with Cons.prems(1) Pair Inr it True
          have "loop dumps func its (T + T) (rs @ [v]) st2 u0 = (r, st', u')"
            by (simp add: Let_def st1_def [symmetric] st1'_def [symmetric])
          from Cons.IH [OF this monotone_write [OF m1' wr]] ckpt_io_write_ok [OF wr] p1 p1'
          show ?thesis by (auto intro: prefix_order.trans)
        qed
      next
        case False
        with Cons.prems(1) Pair Inr it
        have "loop dumps func its T (rs @ [v]) st1 u0 = (r, st', u')"
          by (simp add: Let_def st1_def [symmetric])
        from Cons.IH [OF this m1] p1 show ?thesis by (auto intro: prefix_order.trans)
      qed
    qed
  qed
qed


lemma check_progress_state:
  assumes "check_progress dumps st = (res, st1)"
  shows "trace st1 = trace st \<and> prefix (progress st) (progress st1)"
proof (cases "load_progress dumps st")
  case (Inl e)
  with assms show ?thesis by (simp add: check_progress_def)
next
  case (Inr st0)
  with assms have "st1 = st0" by (auto simp: check_progress_def split: sum.splits)
  with load_progress_ok [OF Inr] show ?thesis by simp
qed

lemma iterable_eq:
  "(if show_progress then py_enumerate (tqdm data) else py_enumerate data) = py_enumerate data"
  by (simp add: tqdm_def)

lemma record_monotone:
  assumes "record_run dumps func F sp st u = (r, st', u')" and "trace st = []"
  shows "monotone st' \<and> prefix (progress st) (progress st')"
proof (cases "check_progress dumps st")
  case (Pair res st1)
  have tr: "trace st1 = []" and pf: "prefix (progress st) (progress st1)"
    using check_progress_state [OF Pair] assms(2) by simp_all
  have m1: "monotone st1" using tr by (simp add: monotone_def)
  show ?thesis
  proof (cases res)
    case (Inl e)
    with Pair assms(1) have "st' = st1" by (simp add: record_run_def)
    with m1 pf show ?thesis by simp
  next
    case (Inr data)
    show ?thesis
    proof (cases "data = []")
      case True
      with Pair Inr assms(1) have "st' = st1\<lparr>stdout := stdout st1 @ [NothingToUpdate]\<rparr>"
        by (simp add: record_run_def)
      with monotone_append [OF m1, where ms = "[]" and ?st1.0 = st'] pf show ?thesis by simp
    next
      case False
      define st2 where "st2 = st1\<lparr>sigint_handler := True\<rparr>"
      have m2: "monotone st2"
        using m1 by (rule monotone_append [where ms = "[]"]) (simp_all add: st2_def)
      have p2: "progress st2 = progress st1" by (simp add: st2_def)
      obtain lr st3 u3 where lp: "loop dumps func (py_enumerate data) F [] st2 u = (lr, st3, u3)"
        by (cases "loop dumps func (py_enumerate data) F [] st2 u") auto
      from loop_monotone [OF lp m2] have m3: "monotone st3" and p3: "prefix (progress st2) (progress st3)"
        by simp_all
      show ?thesis
      proof (cases lr)
        case (Inl e)
        with Pair Inr False assms(1) lp have "st' = st3"
          by (simp add: record_run_def Let_def iterable_eq st2_def [symmetric])
        with m3 p3 p2 pf show ?thesis by (auto intro: prefix_order.trans)
      next
        case rs: (Inr results)
        show ?thesis
        proof (cases "ckpt_io_write st3")
          case (Inl e)
          with Pair Inr rs False assms(1) lp have "st' = st3"
            by (simp add: record_run_def Let_def iterable_eq st2_def [symmetric])
          with m3 p3 p2 pf show ?thesis by (auto intro: prefix_order.trans)
        next
          case wr: (Inr st4)
          with Pair Inr rs False assms(1) lp have "st' = st4"
            by (simp add: record_run_def Let_def iterable_eq st2_def [symmetric])
          with monotone_write [OF m3 wr] ckpt_io_write_ok [OF wr] p3 p2 pf
          show ?thesis by (auto intro: prefix_order.trans)
        qed
      qed
    qed
  qed
qed

lemma calls_steps [simp]: "calls (steps es) = calls es"
  by (induction es rule: steps.induct) simp_all

lemma calls_pairs [simp]: "calls (concat (map (\<lambda>x. [Call x, Mark (f x)]) xs)) = xs"
  by (induction xs) simp_all

lemma ckpt_io_write_some:
  assumes "ckpt_file st = Some p" and "p \<noteq> []"
  shows "ckpt_io_write st =
    Inr (st\<lparr>files := (files st)(p \<mapsto> Snapshot (map PyBytes (progress st))),
           trace := trace st @ [Write p (progress st)]\<rparr>)"
  using assms by (simp add: ckpt_io_write_def)

lemma record_noop:
  assumes "check_progress dumps st = (Inr [], st1)"
  shows "record_run dumps func F sp st u = (Inr None, st1\<lparr>stdout := stdout st1 @ [NothingToUpdate]\<rparr>, u)"
  using assms by (simp add: record_run_def)

lemma record_completes:
  assumes cp: "check_progress dumps st = (Inr data, st1)" and ne: "data \<noteq> []"
    and fd: "feed func data u = Some (rs, u')"
  shows "\<exists>st' p. record_run dumps func F sp st u = (Inr (Some rs), st', u')
     \<and> ckpt_file st' = Some p
     \<and> progress st' = progress st1 @ map (encode dumps) data
     \<and> steps (trace st') = steps (trace st) @ concat (map (\<lambda>x. [Call x, Mark (encode dumps x)]) data)
     \<and> writes (trace st') = writes (trace st)
          @ map (\<lambda>m. (p, progress st1 @ map (encode dumps) (take m data)))
              (filter (flush_point F) [Suc 0..<Suc (length data)])
          @ [(p, progress st1 @ map (encode dumps) data)]
     \<and> files st' p = Some (Snapshot (map PyBytes (progress st')))"
proof -
  from check_progress_ok [OF cp] obtain p where
    p: "ckpt_file st1 = Some p" "p \<noteq> []" and tr: "trace st1 = trace st" by auto
  define st2 where "st2 = st1\<lparr>sigint_handler := True\<rparr>"
  have ck2: "ckpt_file st2 = Some p" and pr2: "progress st2 = progress st1"
    and tr2: "trace st2 = trace st"
    using p tr by (simp_all add: st2_def)
  have "int 0 < F \<or> F \<le> 0" by auto
  from loop_completes [OF fd ck2 p(2) this, of dumps "[]"]
  obtain st3 where
    run: "loop dumps func (enumerate 0 data) F [] st2 u = (Inr rs, st3, u')"
    and pr3: "progress st3 = progress st2 @ map (encode dumps) data"
    and ck3: "ckpt_file st3 = Some p"
    and sp3: "steps (trace st3) = steps (trace st2)
        @ concat (map (\<lambda>x. [Call x, Mark (encode dumps x)]) data)"
    and wr3: "writes (trace st3) = writes (trace st2)
        @ map (\<lambda>m. (p, progress st2 @ map (encode dumps) (take (m - 0) data)))
            (filter (flush_point F) [Suc 0..<Suc (0 + length data)])"
    by auto
  define st4 where "st4 = st3\<lparr>files := (files st3)(p \<mapsto> Snapshot (map PyBytes (progress st3))),
      trace := trace st3 @ [Write p (progress st3)]\<rparr>"
  have w: "ckpt_io_write st3 = Inr st4"
    unfolding st4_def by (rule ckpt_io_write_some [OF ck3 p(2)])
  have rec: "record_run dumps func F sp st u = (Inr (Some rs), st4, u')"
    using cp ne run w
    by (simp add: record_run_def Let_def iterable_eq py_enumerate_def st2_def [symmetric])
  have wr4: "writes (trace st4) = writes (trace st)
          @ map (\<lambda>m. (p, progress st1 @ map (encode dumps) (take m data)))
              (filter (flush_point F) [Suc 0..<Suc (length data)])
          @ [(p, progress st1 @ map (encode dumps) data)]"
    unfolding st4_def using wr3 pr3 pr2 tr2 by (simp del: upt_Suc)
  show ?thesis
  proof (intro exI conjI)
    show "record_run dumps func F sp st u = (Inr (Some rs), st4, u')" by (rule rec)
    show "ckpt_file st4 = Some p" using ck3 by (simp add: st4_def)
    show "progress st4 = progress st1 @ map (encode dumps) data"
      using pr3 pr2 by (simp add: st4_def)
    show "steps (trace st4) = steps (trace st) @ concat (map (\<lambda>x. [Call x, Mark (encode dumps x)]) data)"
      using sp3 tr2 by (simp add: st4_def)
    show "writes (trace st4) = writes (trace st)
          @ map (\<lambda>m. (p, progress st1 @ map (encode dumps) (take m data)))
              (filter (flush_point F) [Suc 0..<Suc (length data)])
          @ [(p, progress st1 @ map (encode dumps) data)]" by (rule wr4)
    show "files st4 p = Some (Snapshot (map PyBytes (progress st4)))" by (simp add: st4_def)
  qed
qed

lemma record_raises:
  assumes cp: "check_progress dumps st = (Inr (pre @ x # post), st1)"
    and fd: "feed func pre u = Some (rs, u1)" and fx: "func x u1 = (Inl e, u2)"
  shows "\<exists>st'. record_run dumps func F sp st u = (Inl e, st', u2)
     \<and> progress st' = progress st1 @ map (encode dumps) pre
     \<and> steps (trace st') = steps (trace st)
          @ concat (map (\<lambda>y. [Call y, Mark (encode dumps y)]) pre) @ [Call x]"
proof -
  from check_progress_ok [OF cp] obtain p where
    p: "ckpt_file st1 = Some p" "p \<noteq> []" and tr: "trace st1 = trace st" by auto
  define st2 where "st2 = st1\<lparr>sigint_handler := True\<rparr>"
  have ck2: "ckpt_file st2 = Some p" and pr2: "progress st2 = progress st1"
    and tr2: "trace st2 = trace st"
    using p tr by (simp_all add: st2_def)
  from loop_raises [OF fd fx ck2 p(2), of dumps 0 post F "[]"]
  obtain st3 where
    run: "loop dumps func (enumerate 0 (pre @ x # post)) F [] st2 u = (Inl e, st3, u2)"
    and pr3: "progress st3 = progress st2 @ map (encode dumps) pre"
    and sp3: "steps (trace st3) = steps (trace st2)
        @ concat (map (\<lambda>y. [Call y, Mark (encode dumps y)]) pre) @ [Call x]"
    by auto
  have "record_run dumps func F sp st u = (Inl e, st3, u2)"
    using cp run
    by (simp add: record_run_def Let_def iterable_eq py_enumerate_def st2_def [symmetric])
  with pr3 sp3 pr2 tr2 show ?thesis by simp
qed

lemma feed_length: "feed func xs u = Some (rs, u') \<Longrightarrow> length rs = length xs"
  by (induction xs arbitrary: u rs) (auto split: prod.splits sum.splits option.splits)

lemma flush_point_dvd: "flush_point F m \<Longrightarrow> F dvd int m"
  by (auto simp: flush_point_def)

lemma flush_point_twice: "flush_point (int m) (2 * m)"
  unfolding flush_point_def by (rule exI [of _ 1]) simp

lemma example_run:
  "record_run dumps times10 2 show_progress
     (init (Some (Items [PyInt 1, PyInt 2, PyInt 3, PyInt 4, PyInt 5])) None fs loader t) u =
   (Inr (Some [PyInt 10, PyInt 20, PyInt 30, PyInt 40, PyInt 50]),
    \<lparr>input_data = Some (Items [PyInt 1, PyInt 2, PyInt 3, PyInt 4, PyInt 5]),
     ckpt_file = Some (str_int t @ ''.ckpt''),
     progress = map (encode dumps) [PyInt 1, PyInt 2, PyInt 3, PyInt 4, PyInt 5],
     files = fs(str_int t @ ''.ckpt'' \<mapsto>
       Snapshot (map (PyBytes \<circ> encode dumps) [PyInt 1, PyInt 2, PyInt 3, PyInt 4, PyInt 5])),
     input_files = loader, clock = t, sigint_handler = True,
     stdout = [SavingProgress (Some (str_int t @ ''.ckpt'')),
               SavingProgress (Some (str_int t @ ''.ckpt''))],
     trace =
       [Call (PyInt 1), Mark (encode dumps (PyInt 1)),
        Call (PyInt 2), Mark (encode dumps (PyInt 2)),
        Write (str_int t @ ''.ckpt'') (map (encode dumps) [PyInt 1, PyInt 2]),
        Call (PyInt 3), Mark (encode dumps (PyInt 3)),
        Call (PyInt 4), Mark (encode dumps (PyInt 4)),
        Write (str_int t @ ''.ckpt'') (map (encode dumps) [PyInt 1, PyInt 2, PyInt 3, PyInt 4]),
        Call (PyInt 5), Mark (encode dumps (PyInt 5)),
        Write (str_int t @ ''.ckpt'')
          (map (encode dumps) [PyInt 1, PyInt 2, PyInt 3, PyInt 4, PyInt 5])]\<rparr>,
    u)"
  by (simp add: record_run_def check_progress_def load_progress_def input_items_def init_def
      py_enumerate_def tqdm_def times10_def ckpt_io_write_def touch_def Let_def
      split: option.split)

lemma fresh_example:
  "check_progress dumps (init (Some (Items xs)) None fs loader t) =
    (Inr xs,
     (init (Some (Items xs)) None fs loader t)
       \<lparr>ckpt_file := Some (str_int t @ ''.ckpt''), files := touch fs (str_int t @ ''.ckpt'')\<rparr>)"
  by (subst check_progress_fresh [where xs = xs]) (simp_all add: init_def)

section \<open>Lemmas on markers and on the byte-level store\<close>


lemma read_bytes_decode:
  "(ckpt_io_read_bytes lib s = Inr vs)
    = (\<exists>p b. store_path s = Some p \<and> store_files s p = Some b \<and> decode lib b = Snapshot vs)"
  by (auto simp: ckpt_io_read_bytes_def decode_def split: option.splits sum.splits if_splits)

lemma write_bytes_decode:
  assumes "library_round_trip lib (map PyBytes (store_progress s))"
    and "ckpt_io_write_bytes lib s = Inr s'"
  shows "\<exists>p b. store_path s = Some p \<and> store_files s' p = Some b
     \<and> decode lib b = Snapshot (map PyBytes (store_progress s))"
  using assms
  by (auto simp: ckpt_io_write_bytes_def decode_def library_round_trip_def
      split: option.splits if_splits)

section \<open>The claims\<close>

text \<open>
  Claim C1 (resume correctness). A checkpoint file written by \<^verbatim>\<open>record\<close> holds markers.
  \<^verbatim>\<open>check_progress\<close> encodes each loaded marker once more (line 90) and excludes by these
  encodings of markers, so no item whose marker is in the file is skipped: with the input
  \<^verbatim>\<open>[1, 2, 3]\<close> and a checkpoint file holding the marker of \<^verbatim>\<open>1\<close>, the work set is the whole
  input, where the claim gives \<^verbatim>\<open>[2, 3]\<close>. The lemma \<open>check_progress_resume\<close> gives the
  exclusion set for every input.
\<close>

theorem resume_reencodes:
  "fst (check_progress pickle_dumps
      (init (Some (Items [PyInt 1, PyInt 2, PyInt 3])) (Some ''run.ckpt'')
         [''run.ckpt'' \<mapsto> Snapshot [PyBytes (encode pickle_dumps (PyInt 1))]]
         (\<lambda>q. Inl DecodeError) 0))
     = Inr [PyInt 1, PyInt 2, PyInt 3]
   \<and> stdout (snd (check_progress pickle_dumps
      (init (Some (Items [PyInt 1, PyInt 2, PyInt 3])) (Some ''run.ckpt'')
         [''run.ckpt'' \<mapsto> Snapshot [PyBytes (encode pickle_dumps (PyInt 1))]]
         (\<lambda>q. Inl DecodeError) 0)))
     = [Resuming ''run.ckpt'' 1]
   \<and> progress (snd (check_progress pickle_dumps
      (init (Some (Items [PyInt 1, PyInt 2, PyInt 3])) (Some ''run.ckpt'')
         [''run.ckpt'' \<mapsto> Snapshot [PyBytes (encode pickle_dumps (PyInt 1))]]
         (\<lambda>q. Inl DecodeError) 0)))
     = [encode pickle_dumps (PyBytes (encode pickle_dumps (PyInt 1)))]"
  by code_simp

text \<open>
  Claim C2 (no-op on full completion). From the same re-encoding: with the input \<^verbatim>\<open>[1]\<close>
  and a checkpoint file that holds the marker of \<^verbatim>\<open>1\<close>, \<^verbatim>\<open>record\<close> invokes the callback on
  \<^verbatim>\<open>1\<close>, writes the checkpoint once and returns \<^verbatim>\<open>[10]\<close>. When the work set is empty,
  \<^verbatim>\<open>record\<close> does nothing and returns \<^verbatim>\<open>None\<close> (lemma \<open>record_noop\<close>).
\<close>

theorem completed_run_repeats:
  "fst (record_run pickle_dumps times10 100 True
      (init (Some (Items [PyInt 1])) (Some ''run.ckpt'')
         [''run.ckpt'' \<mapsto> Snapshot [PyBytes (encode pickle_dumps (PyInt 1))]]
         (\<lambda>q. Inl DecodeError) 0) ())
   = Inr (Some [PyInt 10])
   \<and> calls (trace (fst (snd (record_run pickle_dumps times10 100 True
      (init (Some (Items [PyInt 1])) (Some ''run.ckpt'')
         [''run.ckpt'' \<mapsto> Snapshot [PyBytes (encode pickle_dumps (PyInt 1))]]
         (\<lambda>q. Inl DecodeError) 0) ())))) = [PyInt 1]
   \<and> length (writes (trace (fst (snd (record_run pickle_dumps times10 100 True
      (init (Some (Items [PyInt 1])) (Some ''run.ckpt'')
         [''run.ckpt'' \<mapsto> Snapshot [PyBytes (encode pickle_dumps (PyInt 1))]]
         (\<lambda>q. Inl DecodeError) 0) ()))))) = 1"
  by code_simp

text \<open>
  Claim C3 (callback failure). When the callback returns on the items \<open>pre\<close> of the work
  set and raises \<open>e\<close> on the next item \<open>x\<close>, \<^verbatim>\<open>record\<close> raises \<open>e\<close>; the progress list is then
  the one \<^verbatim>\<open>check_progress\<close> left, followed by the markers of \<open>pre\<close> and nothing else; and
  in the log each marker is appended right after the invocation of the callback on its item,
  the invocation on \<open>x\<close> being followed by no marker.
\<close>

theorem callback_failure:
  assumes "check_progress dumps st = (Inr (pre @ x # post), st1)"
    and "feed func pre u = Some (rs, u1)" and "func x u1 = (Inl e, u2)"
  shows "\<exists>st'. record_run dumps func F show_progress st u = (Inl e, st', u2)
     \<and> progress st' = progress st1 @ map (encode dumps) pre
     \<and> steps (trace st') = steps (trace st)
          @ concat (map (\<lambda>y. [Call y, Mark (encode dumps y)]) pre) @ [Call x]"
  using assms by (rule record_raises)

theorem callback_failure_witness:
  "\<exists>st'. record_run pickle_dumps times10 100 True
       (init (Some (Items [PyInt 1, PyNone, PyInt 3])) None Map.empty (\<lambda>q. Inl DecodeError) 0) ()
       = (Inl TypeError, st', ())
     \<and> progress st' = [encode pickle_dumps (PyInt 1)]
     \<and> steps (trace st') = [Call (PyInt 1), Mark (encode pickle_dumps (PyInt 1)), Call PyNone]"
proof -
  define st where "st = init (Some (Items [PyInt 1, PyNone, PyInt 3])) None Map.empty
    (\<lambda>q. Inl DecodeError :: load_exn + pyval list) 0"
  define st1 where "st1 = st\<lparr>ckpt_file := Some (str_int (clock st) @ ''.ckpt''),
        files := touch (files st) (str_int (clock st) @ ''.ckpt'')\<rparr>"
  have cp: "check_progress pickle_dumps st = (Inr ([PyInt 1] @ PyNone # [PyInt 3]), st1)"
    unfolding st1_def by (subst check_progress_fresh [where xs = "[PyInt 1, PyNone, PyInt 3]"])
      (simp_all add: st_def init_def)
  have fd: "feed times10 [PyInt 1] () = Some ([PyInt 10], ())"
    by (simp add: times10_def)
  have fx: "times10 PyNone () = (Inl TypeError, ())"
    by (simp add: times10_def)
  from callback_failure [OF cp fd fx, of 100 True]
  show ?thesis by (simp add: st_def [symmetric] st1_def) (simp add: st_def init_def)
qed

text \<open>
  Claim C4 (example scenario). Input \<^verbatim>\<open>[1, 2, 3, 4, 5]\<close>, no checkpoint path, interval 2,
  callback \<^verbatim>\<open>item * 10\<close>, for every pickler, file system and clock: the results are
  \<^verbatim>\<open>[10, 20, 30, 40, 50]\<close>; the checkpoint is written after items 2 and 4 and once more
  after item 5; and reading the checkpoint file back gives the markers of the five items.
\<close>

theorem example_scenario:
  "fst (record_run dumps times10 2 show_progress
     (init (Some (Items [PyInt 1, PyInt 2, PyInt 3, PyInt 4, PyInt 5])) None fs loader t) u)
     = Inr (Some [PyInt 10, PyInt 20, PyInt 30, PyInt 40, PyInt 50])
   \<and> trace (fst (snd (record_run dumps times10 2 show_progress
     (init (Some (Items [PyInt 1, PyInt 2, PyInt 3, PyInt 4, PyInt 5])) None fs loader t) u)))
     = [Call (PyInt 1), Mark (encode dumps (PyInt 1)),
        Call (PyInt 2), Mark (encode dumps (PyInt 2)),
        Write (str_int t @ ''.ckpt'') (map (encode dumps) [PyInt 1, PyInt 2]),
        Call (PyInt 3), Mark (encode dumps (PyInt 3)),
        Call (PyInt 4), Mark (encode dumps (PyInt 4)),
        Write (str_int t @ ''.ckpt'') (map (encode dumps) [PyInt 1, PyInt 2, PyInt 3, PyInt 4]),
        Call (PyInt 5), Mark (encode dumps (PyInt 5)),
        Write (str_int t @ ''.ckpt'')
          (map (encode dumps) [PyInt 1, PyInt 2, PyInt 3, PyInt 4, PyInt 5])]
   \<and> ckpt_io_read (fst (snd (record_run dumps times10 2 show_progress
     (init (Some (Items [PyInt 1, PyInt 2, PyInt 3, PyInt 4, PyInt 5])) None fs loader t) u)))
     = Inr (map (PyBytes \<circ> encode dumps) [PyInt 1, PyInt 2, PyInt 3, PyInt 4, PyInt 5])"
  unfolding example_run by (simp add: ckpt_io_read_def)

text \<open>
  Claim C5 (flush cadence), as the claim states it: the second periodic flush comes \<open>2F\<close>
  items after the first and the third \<open>4F\<close> items after the second, that is at the counts
  \<open>spec_flush_counts F\<close>. With \<open>F = 1\<close> and seven items the run writes after 1, 2 and 4
  items and after the last one.
\<close>

theorem flush_cadence_counterexample:
  "map length (snapshots (trace (fst (snd (record_run pickle_dumps times10 1 True
      (init (Some (Items [PyInt 1, PyInt 2, PyInt 3, PyInt 4, PyInt 5, PyInt 6, PyInt 7])) None
         Map.empty (\<lambda>q. Inl DecodeError) 0) ()))))) = [1, 2, 4, 7]
   \<and> [1, 2, 4] \<noteq> spec_flush_counts 1"
  by code_simp

text \<open>
  Claim C5, amended. In a run that completes, a periodic flush happens exactly at the counts
  \<open>m\<close> of completed items, counted from the start of the run, that are \<open>F\<close> times a power of
  two (\<open>F\<close>, \<open>2F\<close>, \<open>4F\<close>, ...: the second flush comes \<open>F\<close> items after the first, the third
  \<open>2F\<close> items after the second), it writes the progress list as it is after \<open>m\<close> items, and
  one more flush follows the last item.
\<close>

theorem flush_cadence:
  assumes "check_progress dumps st = (Inr data, st1)" and "data \<noteq> []"
    and "feed func data u = Some (rs, u')"
  shows "\<exists>st' p. record_run dumps func F show_progress st u = (Inr (Some rs), st', u')
     \<and> ckpt_file st' = Some p
     \<and> writes (trace st') = writes (trace st)
          @ map (\<lambda>m. (p, progress st1 @ map (encode dumps) (take m data)))
              (filter (flush_point F) [Suc 0..<Suc (length data)])
          @ [(p, progress st1 @ map (encode dumps) data)]"
  using record_completes [OF assms, of F show_progress] by blast

theorem flush_cadence_witness:
  "\<exists>st'. record_run pickle_dumps times10 2 True
       (init (Some (Items [PyInt 1, PyInt 2, PyInt 3, PyInt 4, PyInt 5])) None Map.empty
          (\<lambda>q. Inl DecodeError) 0) ()
       = (Inr (Some [PyInt 10, PyInt 20, PyInt 30, PyInt 40, PyInt 50]), st', ())
     \<and> map (length \<circ> snd) (writes (trace st')) = [2, 4, 5]"
proof -
  define data where "data = [PyInt 1, PyInt 2, PyInt 3, PyInt 4, PyInt 5]"
  define st where "st = init (Some (Items data)) None Map.empty
    (\<lambda>q. Inl DecodeError :: load_exn + pyval list) 0"
  define st1 where "st1 = st\<lparr>ckpt_file := Some (str_int 0 @ ''.ckpt''),
    files := touch Map.empty (str_int 0 @ ''.ckpt'')\<rparr>"
  have cp: "check_progress pickle_dumps st = (Inr data, st1)"
    unfolding st_def st1_def by (rule fresh_example)
  have ne: "data \<noteq> []" by (simp add: data_def)
  have fd: "feed times10 data () = Some ([PyInt 10, PyInt 20, PyInt 30, PyInt 40, PyInt 50], ())"
    by (simp add: data_def times10_def)
  have two: "flush_point 2 2" using flush_point_self [of 2] by simp
  have four: "flush_point 2 4" using flush_point_twice [of 2] by simp
  have one: "\<not> flush_point 2 (Suc 0)" by (rule flush_point_none) simp_all
  have three: "\<not> flush_point 2 3" using flush_point_dvd [of 2 3] by auto
  have five: "\<not> flush_point 2 5" using flush_point_dvd [of 2 5] by auto
  have pts: "filter (flush_point 2) [Suc 0..<Suc (length data)] = [2, 4]"
  proof -
    have "[Suc 0..<Suc (length data)] = [Suc 0, 2, 3, 4, 5]"
      by (simp add: data_def upt_rec)
    then show ?thesis using one two three four five by simp
  qed
  from flush_cadence [OF cp ne fd, of 2 True]
  obtain st' p where
    "record_run pickle_dumps times10 2 True st ()
       = (Inr (Some [PyInt 10, PyInt 20, PyInt 30, PyInt 40, PyInt 50]), st', ())"
    and "writes (trace st') = writes (trace st)
          @ map (\<lambda>m. (p, progress st1 @ map (encode pickle_dumps) (take m data)))
              (filter (flush_point 2) [Suc 0..<Suc (length data)])
          @ [(p, progress st1 @ map (encode pickle_dumps) data)]"
    by blast
  moreover have "progress st1 = []" and "writes (trace st) = []" and "length data = 5"
    by (simp_all add: st1_def st_def init_def data_def)
  ultimately show ?thesis
    unfolding pts st_def [symmetric] data_def [symmetric] by auto
qed






text \<open>
  Claim C8 (missing checkpoint). \<^verbatim>\<open>check_progress\<close> raises \<^verbatim>\<open>FileNotFoundError\<close> with the
  message of line 95 exactly when a checkpoint path is set (not \<^verbatim>\<open>None\<close>, not empty) and no
  file is at that path; \<^verbatim>\<open>record\<close> then raises it too and leaves the object, the files and
  the log as they were, and the callback's state untouched.
\<close>

theorem missing_checkpoint_error:
  "(fst (check_progress dumps st) = Inl (FileNotFoundError ckpt_missing))
     = (\<exists>p. ckpt_file st = Some p \<and> p \<noteq> [] \<and> files st p = None)
   \<and> (fst (check_progress dumps st) = Inl (FileNotFoundError ckpt_missing)
        \<longrightarrow> record_run dumps func F show_progress st u
              = (Inl (FileNotFoundError ckpt_missing), st, u))"
proof (intro conjI impI)
  show iff: "(fst (check_progress dumps st) = Inl (FileNotFoundError ckpt_missing))
     = (\<exists>p. ckpt_file st = Some p \<and> p \<noteq> [] \<and> files st p = None)"
    by (auto simp: check_progress_def load_progress_def ckpt_io_read_def input_items_def Let_def
        split: sum.splits option.splits content.splits input.splits if_splits)
  assume "fst (check_progress dumps st) = Inl (FileNotFoundError ckpt_missing)"
  with iff obtain p where "ckpt_file st = Some p" "p \<noteq> []" "files st p = None" by auto
  then have "check_progress dumps st = (Inl (FileNotFoundError ckpt_missing), st)"
    by (simp add: check_progress_def load_progress_def)
  then show "record_run dumps func F show_progress st u
      = (Inl (FileNotFoundError ckpt_missing), st, u)"
    by (simp add: record_run_def)
qed

theorem missing_checkpoint_error_witness:
  "fst (check_progress pickle_dumps
      (init (Some (Items [PyInt 1])) (Some ''gone.ckpt'') Map.empty (\<lambda>q. Inl DecodeError) 0))
     = Inl (FileNotFoundError ckpt_missing)
   \<and> record_run pickle_dumps times10 100 True
      (init (Some (Items [PyInt 1])) (Some ''gone.ckpt'') Map.empty (\<lambda>q. Inl DecodeError) 0) ()
     = (Inl (FileNotFoundError ckpt_missing),
        init (Some (Items [PyInt 1])) (Some ''gone.ckpt'') Map.empty (\<lambda>q. Inl DecodeError) 0, ())
   \<and> fst (check_progress pickle_dumps
      (init (Some (Items [PyInt 1])) (Some ''here.ckpt'') [''here.ckpt'' \<mapsto> Snapshot []]
        (\<lambda>q. Inl DecodeError) 0))
     \<noteq> Inl (FileNotFoundError ckpt_missing)
   \<and> fst (check_progress pickle_dumps
      (init (Some (Items [PyInt 1])) None Map.empty (\<lambda>q. Inl DecodeError) 0))
     \<noteq> Inl (FileNotFoundError ckpt_missing)"
proof -
  define gone where "gone = init (Some (Items [PyInt 1])) (Some ''gone.ckpt'') Map.empty
    (\<lambda>q. Inl DecodeError :: load_exn + pyval list) 0"
  define here where "here = init (Some (Items [PyInt 1])) (Some ''here.ckpt'')
    [''here.ckpt'' \<mapsto> Snapshot []] (\<lambda>q. Inl DecodeError :: load_exn + pyval list) 0"
  define unset where "unset = init (Some (Items [PyInt 1])) None Map.empty
    (\<lambda>q. Inl DecodeError :: load_exn + pyval list) 0"
  have g: "\<exists>p. ckpt_file gone = Some p \<and> p \<noteq> [] \<and> files gone p = None"
    by (simp add: gone_def init_def)
  have h: "\<not> (\<exists>p. ckpt_file here = Some p \<and> p \<noteq> [] \<and> files here p = None)"
    by (simp add: here_def init_def)
  have n: "\<not> (\<exists>p. ckpt_file unset = Some p \<and> p \<noteq> [] \<and> files unset p = None)"
    by (simp add: unset_def init_def)
  from missing_checkpoint_error [of pickle_dumps gone times10 100 True "()"] g
    missing_checkpoint_error [of pickle_dumps here times10 100 True "()"] h
    missing_checkpoint_error [of pickle_dumps unset times10 100 True "()"] n
  show ?thesis unfolding gone_def [symmetric] here_def [symmetric] unset_def [symmetric] by blast
qed

text \<open>
  Claim C9 (duplicate items). Started with no checkpoint path and an empty progress list on
  an in-memory input \<open>xs\<close>, the work set is \<open>xs\<close> itself, equal items included, and a run that
  completes invokes the callback on each element of \<open>xs\<close> once, in order.
\<close>

theorem duplicates_processed:
  assumes "ckpt_file st = None" and "progress st = []" and "input_data st = Some (Items xs)"
    and "xs \<noteq> []" and "feed func xs u = Some (rs, u')"
  shows "fst (check_progress dumps st) = Inr xs
     \<and> (\<exists>st'. record_run dumps func F show_progress st u = (Inr (Some rs), st', u')
           \<and> calls (trace st') = calls (trace st) @ xs
           \<and> length rs = length xs)"
proof -
  define st1 where "st1 = st\<lparr>ckpt_file := Some (str_int (clock st) @ ''.ckpt''),
        files := touch (files st) (str_int (clock st) @ ''.ckpt'')\<rparr>"
  have cp: "check_progress dumps st = (Inr xs, st1)"
    unfolding st1_def using assms(1,2,3)
    by (subst check_progress_fresh [where xs = xs]) simp_all
  from record_completes [OF cp assms(4,5), of F show_progress]
  obtain st' where run: "record_run dumps func F show_progress st u = (Inr (Some rs), st', u')"
    and sp: "steps (trace st') = steps (trace st)
        @ concat (map (\<lambda>x. [Call x, Mark (encode dumps x)]) xs)"
    by blast
  have "calls (trace st') = calls (steps (trace st'))" by simp
  also have "\<dots> = calls (trace st) @ xs" unfolding sp by simp
  finally have "calls (trace st') = calls (trace st) @ xs" .
  with run cp feed_length [OF assms(5)] show ?thesis by simp
qed

theorem duplicates_processed_witness:
  "fst (check_progress pickle_dumps
      (init (Some (Items [PyInt 7, PyInt 7])) None Map.empty (\<lambda>q. Inl DecodeError) 0))
     = Inr [PyInt 7, PyInt 7]
   \<and> (\<exists>st'. record_run pickle_dumps times10 100 True
          (init (Some (Items [PyInt 7, PyInt 7])) None Map.empty (\<lambda>q. Inl DecodeError) 0) ()
          = (Inr (Some [PyInt 70, PyInt 70]), st', ())
        \<and> calls (trace st') = [PyInt 7, PyInt 7])"
proof -
  define st where "st = init (Some (Items [PyInt 7, PyInt 7])) None Map.empty
    (\<lambda>q. Inl DecodeError :: load_exn + pyval list) 0"
  have a: "ckpt_file st = None" and b: "progress st = []"
    and c: "input_data st = Some (Items [PyInt 7, PyInt 7])" and t: "trace st = []"
    by (simp_all add: st_def init_def)
  have d: "[PyInt 7, PyInt 7] \<noteq> []" by simp
  have e: "feed times10 [PyInt 7, PyInt 7] () = Some ([PyInt 70, PyInt 70], ())"
    by (simp add: times10_def)
  from duplicates_processed [OF a b c d e, of pickle_dumps 100 True] t
  show ?thesis unfolding st_def [symmetric] by simp
qed

text \<open>
  Claim C10 (monotone snapshots). In a call of \<^verbatim>\<open>record\<close>, whatever its outcome, the
  progress list only grows at its end, and of two lists written to the checkpoint the
  earlier is a prefix of the later.
\<close>

theorem snapshots_monotone:
  assumes "record_run dumps func F show_progress st u = (r, st', u')" and "trace st = []"
  shows "prefix (progress st) (progress st')
     \<and> (\<forall>i j. i < j \<longrightarrow> j < length (snapshots (trace st'))
            \<longrightarrow> prefix (snapshots (trace st') ! i) (snapshots (trace st') ! j))"
  using record_monotone [OF assms] by (auto simp: monotone_def sorted_wrt_iff_nth_less)

theorem snapshots_monotone_witness:
  "snapshots (trace (fst (snd (record_run pickle_dumps times10 2 True
       (init (Some (Items [PyInt 1, PyInt 2, PyInt 3, PyInt 4, PyInt 5])) None Map.empty
          (\<lambda>q. Inl DecodeError) 0) ()))))
     = [map (encode pickle_dumps) [PyInt 1, PyInt 2],
        map (encode pickle_dumps) [PyInt 1, PyInt 2, PyInt 3, PyInt 4],
        map (encode pickle_dumps) [PyInt 1, PyInt 2, PyInt 3, PyInt 4, PyInt 5]]
   \<and> prefix (map (encode pickle_dumps) [PyInt 1, PyInt 2])
        (map (encode pickle_dumps) [PyInt 1, PyInt 2, PyInt 3, PyInt 4])
   \<and> prefix (map (encode pickle_dumps) [PyInt 1, PyInt 2, PyInt 3, PyInt 4])
        (map (encode pickle_dumps) [PyInt 1, PyInt 2, PyInt 3, PyInt 4, PyInt 5])"
proof -
  define st where "st = init (Some (Items [PyInt 1, PyInt 2, PyInt 3, PyInt 4, PyInt 5])) None
    Map.empty (\<lambda>q. Inl DecodeError :: load_exn + pyval list) 0"
  define run where "run = record_run pickle_dumps times10 2 True st ()"
  have t: "trace st = []" by (simp add: st_def init_def)
  have r: "record_run pickle_dumps times10 2 True st () = (fst run, fst (snd run), snd (snd run))"
    by (simp add: run_def prod_eq_iff)
  have s: "snapshots (trace (fst (snd run)))
     = [map (encode pickle_dumps) [PyInt 1, PyInt 2],
        map (encode pickle_dumps) [PyInt 1, PyInt 2, PyInt 3, PyInt 4],
        map (encode pickle_dumps) [PyInt 1, PyInt 2, PyInt 3, PyInt 4, PyInt 5]]"
    unfolding run_def st_def example_run by simp
  from snapshots_monotone [OF r t]
  have m: "\<And>i j. i < j \<Longrightarrow> j < length (snapshots (trace (fst (snd run))))
      \<Longrightarrow> prefix (snapshots (trace (fst (snd run))) ! i) (snapshots (trace (fst (snd run))) ! j)"
    by blast
  from m [of 0 1] m [of 1 2] s show ?thesis
    unfolding run_def [symmetric] st_def [symmetric] by simp
qed

end
